theory Spec2Isabelle
  imports Main "HOL-Library.Word"
begin

section \<open>C strings and the libc calls of \<open>hostname_compare\<close>\<close>

text \<open>
  A C string is modelled by the list of the bytes before its terminating NUL, so
  \<open>strlen\<close> is the length of the list. \<open>strcmp\<close> and \<open>strncmp\<close> compare bytes as
  unsigned values and return a negative, zero or positive \<open>int\<close>; the code under
  study only tests the result against zero. \<open>strchr\<close> returns the suffix that starts at
  the first occurrence of the byte (\<open>None\<close> for the NULL pointer); searching for NUL
  finds the terminator.
\<close>

definition strlen :: "string \<Rightarrow> nat" where
  "strlen s = length s"

fun strcmp :: "string \<Rightarrow> string \<Rightarrow> int" where
  "strcmp [] [] = 0"
| "strcmp [] (y # ys) = - 1"
| "strcmp (x # xs) [] = 1"
| "strcmp (x # xs) (y # ys) =
     (if x = y then strcmp xs ys
      else if (of_char x :: nat) < of_char y then - 1 else 1)"

fun strncmp :: "string \<Rightarrow> string \<Rightarrow> nat \<Rightarrow> int" where
  "strncmp s1 s2 0 = 0"
| "strncmp [] [] (Suc n) = 0"
| "strncmp [] (y # ys) (Suc n) = - 1"
| "strncmp (x # xs) [] (Suc n) = 1"
| "strncmp (x # xs) (y # ys) (Suc n) =
     (if x = y then strncmp xs ys n
      else if (of_char x :: nat) < of_char y then - 1 else 1)"

fun strchr :: "string \<Rightarrow> char \<Rightarrow> string option" where
  "strchr [] c = (if c = CHR 0x00 then Some [] else None)"
| "strchr (x # xs) c = (if x = c then Some (x # xs) else strchr xs c)"

section \<open>\<open>hostname_compare\<close> (rfc2818_hostname.c, lines 108 to 140)\<close>

text \<open>
  The pointer \<open>certname + 1\<close> is the string without its first byte. The function
  returns the C \<open>int\<close> 1 or 0.
\<close>

definition hostname_compare :: "string \<Rightarrow> string \<Rightarrow> int" where
  "hostname_compare certname hostname =
     (if strlen certname = 0 \<or> strlen hostname = 0 then 0
      else if strlen certname > 2 \<and> strncmp certname ''*.'' (Suc (Suc 0)) = 0 then
        (let cmpstr1 = drop 1 certname;
             cmpstr2 = strchr hostname CHR ''.''
         in case cmpstr2 of
              None \<Rightarrow> 0
            | Some cmpstr2 \<Rightarrow> if strcmp cmpstr1 cmpstr2 = 0 then 1 else 0)
      else if strcmp certname hostname = 0 then 1
      else 0)"

text \<open>
  The reference definition of the specification (section 4.1, WildcardCompare), written
  from its words: false when either string is empty; when \<open>certname\<close> is longer than
  two bytes and starts with \<open>*.\<close>, true iff \<open>hostname\<close> contains a dot and \<open>certname\<close>
  without its leading star equals the part of \<open>hostname\<close> from its first dot on;
  otherwise true iff the two strings are equal.
\<close>

definition WildcardCompare_spec :: "string \<Rightarrow> string \<Rightarrow> bool" where
  "WildcardCompare_spec certname hostname =
     (if certname = [] \<or> hostname = [] then False
      else if length certname > 2 \<and> take 2 certname = ''*.'' then
        CHR ''.'' \<in> set hostname \<and>
        tl certname = dropWhile (\<lambda>c. c \<noteq> CHR ''.'') hostname
      else certname = hostname)"

section \<open>The accessors of the certificate layer\<close>

text \<open>
  Both entry points read the certificate only through accessor functions that are not
  part of the two files under study; the model takes them as parameters.
  \<^item> The subjectAltName accessor is called with the certificate and the index \<open>i\<close>; the
    model's accessor returns its \<open>int\<close> return code paired with the C string the call
    leaves in the buffer \<open>dnsname\<close> (read by the code only when the return code is
    \<open>GNUTLS_SAN_DNSNAME\<close>).
  \<^item> \<open>gnutls_x509_extract_certificate_dn\<close> returns its return code and the structure
    \<open>dn\<close>, of which the code reads the field \<open>common_name\<close>.
  \<^item> \<open>gnutls_x509_certificate_get_dn_by_oid\<close> is called with the certificate, the
    object identifier and the index 0, and returns its return code and the string it
    leaves in \<open>dnsname\<close>.
  \<^item> The constants \<open>GNUTLS_SAN_DNSNAME\<close> and \<open>OID_X520_COMMON_NAME\<close> come from
    headers outside the two files and are parameters as well.
  The buffer \<open>dnsname\<close> has \<open>MAX_CN = 256\<close> bytes; what an accessor answers for a
  name that does not fit is part of its answer.

  Return codes are never used in arithmetic, only compared, so they are \<open>int\<close>. The
  counter \<open>i\<close> is a 32-bit \<open>int\<close> that the loop increments: it is a \<open>32 word\<close> and
  \<open>i + 1\<close> wraps around in two's complement, as it does on the machines the library
  runs on (C itself leaves the overflow undefined). The counter only overflows after
  \<open>2 ^ 31\<close> requests without a negative answer.

  To state which accessor calls a run makes, the model records them in order:
  \<open>Subject_alt_name i\<close> is a call of the subjectAltName accessor for index \<open>i\<close>,
  \<open>Subject_dn\<close> a call of the accessor that retrieves the subject DN or its Common
  Name.
\<close>

datatype call = Subject_alt_name "32 word" | Subject_dn

record gnutls_x509_dn =
  common_name :: string

text \<open>
  The local variables when control leaves the \<open>for\<close> loop: \<open>returned\<close> is \<open>Some v\<close>
  when the loop was left by \<open>return v\<close>, and \<open>None\<close> when its condition became false.
\<close>

record san_scan =
  returned :: "int option"
  found_dnsname :: int
  calls :: "call list"

section \<open>\<open>gnutls_x509_check_certificates_hostname\<close> (rfc2818_hostname.c, lines 44 to 103)\<close>

text \<open>
  The loop \<open>for (i = 0; !(ret < 0); i++)\<close> of lines 69 to 84, started in the state
  \<open>i\<close>, \<open>ret\<close>, \<open>found_dnsname\<close>. It runs for as long as the accessor returns
  non-negative codes, so it is a partial function: \<open>None\<close> stands for a loop that never
  ends.
\<close>

partial_function (option) check_certificates_hostname_loop ::
  "int \<Rightarrow> ('c \<Rightarrow> 32 word \<Rightarrow> int \<times> string) \<Rightarrow> 'c \<Rightarrow> string \<Rightarrow>
     32 word \<Rightarrow> int \<Rightarrow> int \<Rightarrow> call list \<Rightarrow> san_scan option"
where
  "check_certificates_hostname_loop GNUTLS_SAN_DNSNAME extract_certificate_subject_alt_name
      cert hostname i ret found cs =
     (if \<not> (ret < 0) then
        (case extract_certificate_subject_alt_name cert i of (ret, dnsname) \<Rightarrow>
          (let cs = cs @ [Subject_alt_name i] in
           if ret = GNUTLS_SAN_DNSNAME then
             (let found = 1 in
              if hostname_compare dnsname hostname \<noteq> 0
              then Some \<lparr>returned = Some 1, found_dnsname = found, calls = cs\<rparr>
              else check_certificates_hostname_loop GNUTLS_SAN_DNSNAME
                     extract_certificate_subject_alt_name cert hostname (i + 1) ret found cs)
           else check_certificates_hostname_loop GNUTLS_SAN_DNSNAME
                  extract_certificate_subject_alt_name cert hostname (i + 1) ret found cs))
      else Some \<lparr>returned = None, found_dnsname = found, calls = cs\<rparr>)"

declare check_certificates_hostname_loop.simps [code]

text \<open>
  The function: the loop from \<open>i = 0\<close>, \<open>ret = 0\<close>, \<open>found_dnsname = 0\<close>, then lines
  86 to 102. The result is the returned \<open>int\<close> with the accessor calls made.
\<close>

definition gnutls_x509_check_certificates_hostname ::
  "int \<Rightarrow> ('c \<Rightarrow> 32 word \<Rightarrow> int \<times> string) \<Rightarrow> ('c \<Rightarrow> int \<times> gnutls_x509_dn) \<Rightarrow>
     'c \<Rightarrow> string \<Rightarrow> (int \<times> call list) option"
where
  "gnutls_x509_check_certificates_hostname GNUTLS_SAN_DNSNAME
      extract_certificate_subject_alt_name extract_certificate_dn cert hostname =
     (case check_certificates_hostname_loop GNUTLS_SAN_DNSNAME
             extract_certificate_subject_alt_name cert hostname 0 0 0 [] of
        None \<Rightarrow> None
      | Some scan \<Rightarrow>
          (case returned scan of
             Some v \<Rightarrow> Some (v, calls scan)
           | None \<Rightarrow>
               if found_dnsname scan = 0 then
                 (case extract_certificate_dn cert of (rc, dn) \<Rightarrow>
                    (let cs = calls scan @ [Subject_dn] in
                     if rc \<noteq> 0 then Some (0, cs)
                     else if hostname_compare (common_name dn) hostname \<noteq> 0 then Some (1, cs)
                     else Some (0, cs)))
               else Some (0, calls scan)))"

section \<open>\<open>gnutls_x509_certificate_check_hostname\<close> (rfc2818_hostname.c, lines 154 to 213)\<close>

text \<open>The loop of lines 178 to 192.\<close>

partial_function (option) certificate_check_hostname_loop ::
  "int \<Rightarrow> ('h \<Rightarrow> 32 word \<Rightarrow> int \<times> string) \<Rightarrow> 'h \<Rightarrow> string \<Rightarrow>
     32 word \<Rightarrow> int \<Rightarrow> int \<Rightarrow> call list \<Rightarrow> san_scan option"
where
  "certificate_check_hostname_loop GNUTLS_SAN_DNSNAME certificate_get_subject_alt_name
      cert hostname i ret found cs =
     (if \<not> (ret < 0) then
        (case certificate_get_subject_alt_name cert i of (ret, dnsname) \<Rightarrow>
          (let cs = cs @ [Subject_alt_name i] in
           if ret = GNUTLS_SAN_DNSNAME then
             (let found = 1 in
              if hostname_compare dnsname hostname \<noteq> 0
              then Some \<lparr>returned = Some 1, found_dnsname = found, calls = cs\<rparr>
              else certificate_check_hostname_loop GNUTLS_SAN_DNSNAME
                     certificate_get_subject_alt_name cert hostname (i + 1) ret found cs)
           else certificate_check_hostname_loop GNUTLS_SAN_DNSNAME
                  certificate_get_subject_alt_name cert hostname (i + 1) ret found cs))
      else Some \<lparr>returned = None, found_dnsname = found, calls = cs\<rparr>)"

declare certificate_check_hostname_loop.simps [code]

text \<open>The function: the loop, then lines 194 to 212.\<close>

definition gnutls_x509_certificate_check_hostname ::
  "int \<Rightarrow> 'o \<Rightarrow> ('h \<Rightarrow> 32 word \<Rightarrow> int \<times> string) \<Rightarrow> ('h \<Rightarrow> 'o \<Rightarrow> int \<Rightarrow> int \<times> string) \<Rightarrow>
     'h \<Rightarrow> string \<Rightarrow> (int \<times> call list) option"
where
  "gnutls_x509_certificate_check_hostname GNUTLS_SAN_DNSNAME OID_X520_COMMON_NAME
      certificate_get_subject_alt_name certificate_get_dn_by_oid cert hostname =
     (case certificate_check_hostname_loop GNUTLS_SAN_DNSNAME
             certificate_get_subject_alt_name cert hostname 0 0 0 [] of
        None \<Rightarrow> None
      | Some scan \<Rightarrow>
          (case returned scan of
             Some v \<Rightarrow> Some (v, calls scan)
           | None \<Rightarrow>
               if found_dnsname scan = 0 then
                 (case certificate_get_dn_by_oid cert OID_X520_COMMON_NAME 0 of
                    (rc, dnsname) \<Rightarrow>
                    (let cs = calls scan @ [Subject_dn] in
                     if rc \<noteq> 0 then Some (0, cs)
                     else if hostname_compare dnsname hostname \<noteq> 0 then Some (1, cs)
                     else Some (0, cs)))
               else Some (0, calls scan)))"

section \<open>\<open>gnutls_cipher_encrypt\<close> and \<open>gnutls_cipher_decrypt\<close> (gnutls_cipher_int.c, lines 88 to 114)\<close>

text \<open>
  The buffer \<open>text\<close> is a list of bytes that the cipher library overwrites in place; the
  model returns the return code with the buffer after the call. The compile-time switch
  \<open>USE_MCRYPT\<close> is a boolean parameter. The library calls and the constants
  \<open>GNUTLS_CIPHER_FAILED\<close> and \<open>GNUTLS_E_UNKNOWN_ERROR\<close> are parameters: \<open>mcrypt_generic\<close>
  and \<open>mdecrypt_generic\<close> give the new buffer (their return value is ignored by the
  code), \<open>gcry_cipher_encrypt\<close> and \<open>gcry_cipher_decrypt\<close> give their return code and
  the new buffer. \<open>gnutls_assert\<close> only logs.
\<close>

type_synonym buffer = "8 word list"

definition gnutls_cipher_encrypt ::
  "bool \<Rightarrow> 'h \<Rightarrow> int \<Rightarrow> ('h \<Rightarrow> buffer \<Rightarrow> int \<Rightarrow> buffer) \<Rightarrow>
     ('h \<Rightarrow> buffer \<Rightarrow> int \<Rightarrow> int \<times> buffer) \<Rightarrow> 'h \<Rightarrow> buffer \<Rightarrow> int \<Rightarrow> int \<times> buffer"
where
  "gnutls_cipher_encrypt USE_MCRYPT GNUTLS_CIPHER_FAILED GNUTLS_E_UNKNOWN_ERROR
      mcrypt_generic gcry_cipher_encrypt handle text textlen =
     (if handle \<noteq> GNUTLS_CIPHER_FAILED then
        (if USE_MCRYPT then (0, mcrypt_generic handle text textlen)
         else
           (case gcry_cipher_encrypt handle text textlen of (rc, text') \<Rightarrow>
              if rc \<noteq> 0 then (GNUTLS_E_UNKNOWN_ERROR, text') else (0, text')))
      else (0, text))"

definition gnutls_cipher_decrypt ::
  "bool \<Rightarrow> 'h \<Rightarrow> int \<Rightarrow> ('h \<Rightarrow> buffer \<Rightarrow> int \<Rightarrow> buffer) \<Rightarrow>
     ('h \<Rightarrow> buffer \<Rightarrow> int \<Rightarrow> int \<times> buffer) \<Rightarrow> 'h \<Rightarrow> buffer \<Rightarrow> int \<Rightarrow> int \<times> buffer"
where
  "gnutls_cipher_decrypt USE_MCRYPT GNUTLS_CIPHER_FAILED GNUTLS_E_UNKNOWN_ERROR
      mdecrypt_generic gcry_cipher_decrypt handle ciphertext ciphertextlen =
     (if handle \<noteq> GNUTLS_CIPHER_FAILED then
        (if USE_MCRYPT then (0, mdecrypt_generic handle ciphertext ciphertextlen)
         else
           (case gcry_cipher_decrypt handle ciphertext ciphertextlen of (rc, ciphertext') \<Rightarrow>
              if rc \<noteq> 0 then (GNUTLS_E_UNKNOWN_ERROR, ciphertext') else (0, ciphertext')))
      else (0, ciphertext))"

section \<open>Vocabulary of the statements\<close>

text \<open>
  The \<open>j\<close>-th pass through the loop (counting from 0) asks for the index
  \<open>word_of_nat j\<close>, which is the \<open>int\<close> \<open>j\<close> itself for every \<open>j\<close> below \<open>2 ^ 31\<close>.
  \<open>san_code\<close> is the return code of that request, \<open>san_match\<close> says
  that it is an entry of DNS type whose name \<open>hostname_compare\<close> accepts, and
  \<open>san_ends_at k\<close> says that \<open>k\<close> is the first request with a negative return code.
  \<open>san_requests n m\<close> are the requests number \<open>n\<close> to \<open>m - 1\<close>, in order.
\<close>

definition san_code :: "('c \<Rightarrow> 32 word \<Rightarrow> int \<times> string) \<Rightarrow> 'c \<Rightarrow> nat \<Rightarrow> int" where
  "san_code san cert j = fst (san cert (word_of_nat j))"

definition san_match ::
  "int \<Rightarrow> ('c \<Rightarrow> 32 word \<Rightarrow> int \<times> string) \<Rightarrow> 'c \<Rightarrow> string \<Rightarrow> nat \<Rightarrow> bool" where
  "san_match GNUTLS_SAN_DNSNAME san cert hostname j =
     (fst (san cert (word_of_nat j)) = GNUTLS_SAN_DNSNAME \<and>
      hostname_compare (snd (san cert (word_of_nat j))) hostname \<noteq> 0)"

definition san_ends_at :: "('c \<Rightarrow> 32 word \<Rightarrow> int \<times> string) \<Rightarrow> 'c \<Rightarrow> nat \<Rightarrow> bool" where
  "san_ends_at san cert k =
     (san_code san cert k < 0 \<and> (\<forall>j<k. \<not> san_code san cert j < 0))"

definition san_requests :: "nat \<Rightarrow> nat \<Rightarrow> call list" where
  "san_requests n m = map (\<lambda>j. Subject_alt_name (word_of_nat j)) [n..<m]"

text \<open>
  The value lines 86 to 102 return once the loop has ended without a DNS entry: the
  verdict on the Common Name, 0 when its retrieval failed.
\<close>

definition common_name_verdict :: "int \<Rightarrow> string \<Rightarrow> string \<Rightarrow> int" where
  "common_name_verdict rc name hostname =
     (if rc \<noteq> 0 then 0 else if hostname_compare name hostname \<noteq> 0 then 1 else 0)"

section \<open>Example certificates\<close>

text \<open>
  Accessors of concrete certificates, with \<open>GNUTLS_SAN_DNSNAME = 1\<close> and any other
  non-negative code for an entry of another type.
  \<^item> \<open>san_example\<close> lists an e-mail entry (code 2), then the DNS names
    \<open>mail.example.com\<close> and \<open>*.example.com\<close>, then reports the end of the list with a
    negative code. Its Common Name is \<open>host.example.org\<close>.
  \<^item> \<open>san_error_first\<close> fails with a negative code on entry 0, which is followed by
    the DNS name \<open>www.example.com\<close>.
  \<^item> \<open>san_other_types\<close> lists an e-mail entry and nothing else.
  \<^item> \<open>san_absent\<close> belongs to a certificate without subjectAltName entries: every
    request is answered with a negative code. \<open>dn_wildcard\<close> and \<open>dn_by_oid_wildcard\<close>
    give it the Common Name \<open>*.example.org\<close>.
  \<^item> \<open>san_of_handle\<close> and \<open>dn_by_oid_of_handle\<close> are the accessors of parsed
    certificates, where handle 7 is the certificate of \<open>san_example\<close> and handle 8 is a
    second copy of it.
\<close>

definition san_example :: "unit \<Rightarrow> 32 word \<Rightarrow> int \<times> string" where
  "san_example cert i =
     (if i = 0 then (2, ''admin@example.com'')
      else if i = 1 then (1, ''mail.example.com'')
      else if i = 2 then (1, ''*.example.com'')
      else (- 1, []))"

definition san_error_first :: "unit \<Rightarrow> 32 word \<Rightarrow> int \<times> string" where
  "san_error_first cert i =
     (if i = 0 then (- 1, [])
      else if i = 1 then (1, ''www.example.com'')
      else (- 1, []))"



definition dn_example :: "unit \<Rightarrow> int \<times> gnutls_x509_dn" where
  "dn_example cert = (0, \<lparr>common_name = ''host.example.org''\<rparr>)"

definition dn_by_oid_example :: "unit \<Rightarrow> unit \<Rightarrow> int \<Rightarrow> int \<times> string" where
  "dn_by_oid_example cert oid indx = (0, ''host.example.org'')"



definition dn_unavailable :: "unit \<Rightarrow> int \<times> gnutls_x509_dn" where
  "dn_unavailable cert = (- 1, \<lparr>common_name = []\<rparr>)"

definition dn_by_oid_unavailable :: "unit \<Rightarrow> unit \<Rightarrow> int \<Rightarrow> int \<times> string" where
  "dn_by_oid_unavailable cert oid indx = (- 1, [])"

definition san_of_handle :: "nat \<Rightarrow> 32 word \<Rightarrow> int \<times> string" where
  "san_of_handle cert i = (if cert = 7 \<or> cert = 8 then san_example () i else (- 1, []))"

definition dn_by_oid_of_handle :: "nat \<Rightarrow> unit \<Rightarrow> int \<Rightarrow> int \<times> string" where
  "dn_by_oid_of_handle cert oid indx =
     (if cert = 7 \<or> cert = 8 then (0, ''host.example.org'') else (- 1, []))"

section \<open>Facts about the string functions\<close>

lemma strcmp_eq_0_iff: "strcmp a b = 0 \<longleftrightarrow> a = b"
  by (induction a b rule: strcmp.induct) auto

lemma strncmp_star_dot:
  "strncmp s ''*.'' (Suc (Suc 0)) = 0 \<longleftrightarrow> take 2 s = ''*.''"
proof (cases s)
  case Nil
  then show ?thesis by simp
next
  case (Cons x xs)
  then show ?thesis by (cases xs) auto
qed

lemma strchr_dot:
  "strchr h CHR ''.'' =
     (if CHR ''.'' \<in> set h then Some (dropWhile (\<lambda>c. c \<noteq> CHR ''.'') h) else None)"
  by (induction h) auto

lemma hostname_compare_spec:
  "hostname_compare c h = (if WildcardCompare_spec c h then 1 else 0)"
  by (auto simp: hostname_compare_def WildcardCompare_spec_def strlen_def
      strcmp_eq_0_iff strncmp_star_dot strchr_dot drop_Suc)

lemma hostname_compare_range: "hostname_compare c h = 0 \<or> hostname_compare c h = 1"
  by (simp add: hostname_compare_spec)

lemma WildcardCompare_spec_refl: "h \<noteq> [] \<Longrightarrow> WildcardCompare_spec h h"
proof (cases "length h > 2 \<and> take 2 h = ''*.''")
  case False
  assume "h \<noteq> []"
  with False show ?thesis by (auto simp: WildcardCompare_spec_def)
next
  case True
  then obtain t where h: "h = CHR ''*'' # CHR ''.'' # t"
    by (cases h; cases "tl h") auto
  show ?thesis by (simp add: h WildcardCompare_spec_def)
qed

section \<open>Facts about the traversal\<close>

subsection \<open>One pass through the loop\<close>

lemma loop1_exit:
  "ret < 0 \<Longrightarrow>
   check_certificates_hostname_loop D san cert h i ret found cs =
     Some \<lparr>returned = None, found_dnsname = found, calls = cs\<rparr>"
  by (subst check_certificates_hostname_loop.simps) simp

lemma loop1_step:
  "\<not> ret < 0 \<Longrightarrow>
   check_certificates_hostname_loop D san cert h i ret found cs =
     (if fst (san cert i) = D \<and> hostname_compare (snd (san cert i)) h \<noteq> 0
      then Some \<lparr>returned = Some 1, found_dnsname = 1,
                  calls = cs @ [Subject_alt_name i]\<rparr>
      else check_certificates_hostname_loop D san cert h (i + 1) (fst (san cert i))
             (if fst (san cert i) = D then 1 else found) (cs @ [Subject_alt_name i]))"
  by (subst check_certificates_hostname_loop.simps) (simp add: Let_def split: prod.splits)

lemma word_of_nat_Suc: "(word_of_nat (Suc n) :: 32 word) = word_of_nat n + 1"
  by simp

lemma san_requests_step:
  "n < m \<Longrightarrow>
   cs @ san_requests n m = (cs @ [Subject_alt_name (word_of_nat n)]) @ san_requests (Suc n) m"
  by (simp add: san_requests_def upt_conv_Cons)

lemma filter_san_requests:
  "filter (\<lambda>c. c \<noteq> Subject_dn) (san_requests n m) = san_requests n m"
  by (simp add: san_requests_def)

lemma length_san_requests: "length (san_requests n m) = m - n"
  by (simp add: san_requests_def)

lemma ex_from_split:
  assumes "n \<le> k"
  shows "(\<exists>j. n \<le> j \<and> j \<le> k \<and> P j) \<longleftrightarrow> P n \<or> (\<exists>j. Suc n \<le> j \<and> j \<le> k \<and> P j)"
proof
  assume "\<exists>j. n \<le> j \<and> j \<le> k \<and> P j"
  then obtain j where j: "n \<le> j" "j \<le> k" "P j" by blast
  show "P n \<or> (\<exists>j. Suc n \<le> j \<and> j \<le> k \<and> P j)"
  proof (cases "j = n")
    case True
    with j show ?thesis by simp
  next
    case False
    with j have "Suc n \<le> j" by simp
    with j show ?thesis by blast
  qed
next
  assume "P n \<or> (\<exists>j. Suc n \<le> j \<and> j \<le> k \<and> P j)"
  then show "\<exists>j. n \<le> j \<and> j \<le> k \<and> P j"
  proof
    assume "P n"
    with assms show ?thesis by blast
  next
    assume "\<exists>j. Suc n \<le> j \<and> j \<le> k \<and> P j"
    then obtain j where "Suc n \<le> j" "j \<le> k" "P j" by blast
    then have "n \<le> j \<and> j \<le> k \<and> P j" by simp
    then show ?thesis by blast
  qed
qed

subsection \<open>The loop up to the first match, and up to the first negative code\<close>

lemma loop1_match:
  assumes "\<not> ret < 0" and "n \<le> m"
    and "\<forall>j. n \<le> j \<and> j < m \<longrightarrow> \<not> san_code san cert j < 0 \<and> \<not> san_match D san cert h j"
    and "san_match D san cert h m"
  shows "check_certificates_hostname_loop D san cert h (word_of_nat n) ret found cs =
           Some \<lparr>returned = Some 1, found_dnsname = 1, calls = cs @ san_requests n (Suc m)\<rparr>"
  using assms
proof (induction "m - n" arbitrary: n ret found cs)
  case 0
  then have "n = m" by simp
  with 0 show ?case
    by (simp add: loop1_step san_match_def san_requests_def)
next
  case (Suc d)
  then have nm: "n < m" by simp
  with Suc.prems have here: "\<not> san_code san cert n < 0" "\<not> san_match D san cert h n"
    by auto
  from here(2) have nomatch:
    "\<not> (fst (san cert (word_of_nat n)) = D \<and>
        hostname_compare (snd (san cert (word_of_nat n))) h \<noteq> 0)"
    by (simp add: san_match_def)
  have later:
    "\<forall>j. Suc n \<le> j \<and> j < m \<longrightarrow> \<not> san_code san cert j < 0 \<and> \<not> san_match D san cert h j"
    using Suc.prems(3) by simp
  have d: "d = m - Suc n" using Suc.hyps(2) by simp
  have le: "Suc n \<le> m" using nm by simp
  have "check_certificates_hostname_loop D san cert h (word_of_nat n) ret found cs =
        check_certificates_hostname_loop D san cert h (word_of_nat n + 1) (san_code san cert n)
          (if san_code san cert n = D then 1 else found) (cs @ [Subject_alt_name (word_of_nat n)])"
    unfolding loop1_step [OF Suc.prems(1)] if_not_P [OF nomatch] san_code_def ..
  also have "\<dots> = Some \<lparr>returned = Some 1, found_dnsname = 1,
          calls = (cs @ [Subject_alt_name (word_of_nat n)]) @ san_requests (Suc n) (Suc m)\<rparr>"
    using Suc.hyps(1) [OF d here(1) le later Suc.prems(4)]
    unfolding word_of_nat_Suc .
  also have "(cs @ [Subject_alt_name (word_of_nat n)]) @ san_requests (Suc n) (Suc m) =
      cs @ san_requests n (Suc m)"
    using nm by (intro san_requests_step [symmetric]) simp
  finally show ?case .
qed

lemma loop1_exhaust:
  assumes "\<not> ret < 0" and "n \<le> k"
    and "\<forall>j. n \<le> j \<and> j < k \<longrightarrow> \<not> san_code san cert j < 0"
    and "san_code san cert k < 0"
    and "\<forall>j. n \<le> j \<and> j \<le> k \<longrightarrow> \<not> san_match D san cert h j"
  shows "check_certificates_hostname_loop D san cert h (word_of_nat n) ret found cs =
           Some \<lparr>returned = None,
                 found_dnsname =
                   (if \<exists>j. n \<le> j \<and> j \<le> k \<and> san_code san cert j = D then 1 else found),
                 calls = cs @ san_requests n (Suc k)\<rparr>"
  using assms
proof (induction "k - n" arbitrary: n ret found cs)
  case 0
  then have nk: "n = k" by simp
  from 0 nk have nomatch:
    "\<not> (fst (san cert (word_of_nat k)) = D \<and>
        hostname_compare (snd (san cert (word_of_nat k))) h \<noteq> 0)"
    by (simp add: san_match_def)
  have ex: "(\<exists>j. k \<le> j \<and> j \<le> k \<and> san_code san cert j = D) \<longleftrightarrow> san_code san cert k = D"
    by auto
  have neg: "fst (san cert (word_of_nat k)) < 0"
    using 0 by (simp add: san_code_def)
  show ?case
    unfolding nk loop1_step [OF "0.prems"(1)] if_not_P [OF nomatch] ex loop1_exit [OF neg]
    by (simp add: san_requests_def san_code_def)
next
  case (Suc d)
  then have nk: "n < k" by simp
  with Suc.prems have here: "\<not> san_code san cert n < 0" "\<not> san_match D san cert h n"
    by auto
  from here(2) have nomatch:
    "\<not> (fst (san cert (word_of_nat n)) = D \<and>
        hostname_compare (snd (san cert (word_of_nat n))) h \<noteq> 0)"
    by (simp add: san_match_def)
  have later: "\<forall>j. Suc n \<le> j \<and> j < k \<longrightarrow> \<not> san_code san cert j < 0"
    "\<forall>j. Suc n \<le> j \<and> j \<le> k \<longrightarrow> \<not> san_match D san cert h j"
    using Suc.prems(3,5) by simp_all
  have d: "d = k - Suc n" using Suc.hyps(2) by simp
  have le: "Suc n \<le> k" "n \<le> k" using nk by simp_all
  let ?found = "if san_code san cert n = D then 1 else found"
  have "check_certificates_hostname_loop D san cert h (word_of_nat n) ret found cs =
        check_certificates_hostname_loop D san cert h (word_of_nat n + 1) (san_code san cert n)
          ?found (cs @ [Subject_alt_name (word_of_nat n)])"
    unfolding loop1_step [OF Suc.prems(1)] if_not_P [OF nomatch] san_code_def ..
  also have "\<dots> = Some \<lparr>returned = None,
          found_dnsname =
            (if \<exists>j. Suc n \<le> j \<and> j \<le> k \<and> san_code san cert j = D then 1 else ?found),
          calls = (cs @ [Subject_alt_name (word_of_nat n)]) @ san_requests (Suc n) (Suc k)\<rparr>"
    using Suc.hyps(1) [OF d here(1) le(1) later(1) Suc.prems(4) later(2)]
    unfolding word_of_nat_Suc .
  also have "(cs @ [Subject_alt_name (word_of_nat n)]) @ san_requests (Suc n) (Suc k) =
      cs @ san_requests n (Suc k)"
    using nk by (intro san_requests_step [symmetric]) simp
  also have "(if \<exists>j. Suc n \<le> j \<and> j \<le> k \<and> san_code san cert j = D then 1 else ?found) =
      (if \<exists>j. n \<le> j \<and> j \<le> k \<and> san_code san cert j = D then 1 else found)"
    using ex_from_split [OF le(2), of "\<lambda>j. san_code san cert j = D"] by auto
  finally show ?case .
qed

subsection \<open>The two loops are the same function of the accessor's answers\<close>

lemma loop2_imp_loop1:
  "certificate_check_hostname_loop D san cert h i ret found cs = Some y \<Longrightarrow>
   check_certificates_hostname_loop D san cert h i ret found cs = Some y"
proof (induction rule: certificate_check_hostname_loop.raw_induct [rotated 1, consumes 1])
  case (1 loop D san cert h i ret found cs y)
  show ?case
  proof (cases "ret < 0")
    case True
    with 1(2) show ?thesis by (simp add: loop1_exit)
  next
    case False
    show ?thesis
    proof (cases "fst (san cert i) = D \<and> hostname_compare (snd (san cert i)) h \<noteq> 0")
      case True
      with False 1(2) show ?thesis
        by (simp add: loop1_step Let_def split: prod.splits)
    next
      case nomatch: False
      with False 1(2) have "loop D san cert h (i + 1) (fst (san cert i))
          (if fst (san cert i) = D then 1 else found) (cs @ [Subject_alt_name i]) = Some y"
        by (auto simp: Let_def split: prod.splits if_splits)
      then show ?thesis
        unfolding loop1_step [OF False] if_not_P [OF nomatch] by (rule 1(1))
    qed
  qed
qed

lemma loop1_imp_loop2:
  "check_certificates_hostname_loop D san cert h i ret found cs = Some y \<Longrightarrow>
   certificate_check_hostname_loop D san cert h i ret found cs = Some y"
proof (induction rule: check_certificates_hostname_loop.raw_induct [rotated 1, consumes 1])
  case (1 loop D san cert h i ret found cs y)
  show ?case
  proof (cases "ret < 0")
    case True
    with 1(2) show ?thesis
      by (subst certificate_check_hostname_loop.simps) simp
  next
    case False
    show ?thesis
    proof (cases "fst (san cert i) = D \<and> hostname_compare (snd (san cert i)) h \<noteq> 0")
      case True
      with False 1(2) show ?thesis
        by (subst certificate_check_hostname_loop.simps)
           (simp add: Let_def split: prod.splits)
    next
      case nomatch: False
      with False 1(2) have "loop D san cert h (i + 1) (fst (san cert i))
          (if fst (san cert i) = D then 1 else found) (cs @ [Subject_alt_name i]) = Some y"
        by (auto simp: Let_def split: prod.splits if_splits)
      then have "certificate_check_hostname_loop D san cert h (i + 1) (fst (san cert i))
          (if fst (san cert i) = D then 1 else found) (cs @ [Subject_alt_name i]) = Some y"
        by (rule 1(1))
      with False nomatch show ?thesis
        by (subst certificate_check_hostname_loop.simps)
           (auto simp: Let_def split: prod.splits)
    qed
  qed
qed

lemma loop2_eq_loop1:
  "certificate_check_hostname_loop D san cert h i ret found cs =
   check_certificates_hostname_loop D san cert h i ret found cs"
proof (cases "certificate_check_hostname_loop D san cert h i ret found cs")
  case None
  then show ?thesis
    using loop1_imp_loop2 [of D san cert h i ret found cs]
    by (cases "check_certificates_hostname_loop D san cert h i ret found cs") auto
next
  case (Some y)
  then show ?thesis by (simp add: loop2_imp_loop1)
qed

lemma loop1_same_answers_imp:
  "check_certificates_hostname_loop D san cert h i ret found cs = Some y \<Longrightarrow>
   san cert = san' cert' \<Longrightarrow>
   check_certificates_hostname_loop D san' cert' h i ret found cs = Some y"
proof (induction rule: check_certificates_hostname_loop.raw_induct [rotated 1, consumes 1])
  case (1 loop D san cert h i ret found cs y)
  have same: "san' cert' i = san cert i" using 1(3) by simp
  show ?case
  proof (cases "ret < 0")
    case True
    with 1(2) show ?thesis by (simp add: loop1_exit)
  next
    case False
    show ?thesis
    proof (cases "fst (san cert i) = D \<and> hostname_compare (snd (san cert i)) h \<noteq> 0")
      case True
      with False 1(2) show ?thesis
        by (simp add: loop1_step same Let_def split: prod.splits)
    next
      case nomatch: False
      with False 1(2) have "loop D san cert h (i + 1) (fst (san cert i))
          (if fst (san cert i) = D then 1 else found) (cs @ [Subject_alt_name i]) = Some y"
        by (auto simp: Let_def split: prod.splits if_splits)
      then have "check_certificates_hostname_loop D san' cert' h (i + 1) (fst (san cert i))
          (if fst (san cert i) = D then 1 else found) (cs @ [Subject_alt_name i]) = Some y"
        using 1(3) by (rule 1(1))
      then show ?thesis
        unfolding loop1_step [OF False, of D san' cert'] same if_not_P [OF nomatch] .
    qed
  qed
qed

lemma loop1_same_answers:
  assumes "san cert = san' cert'"
  shows "check_certificates_hostname_loop D san cert h i ret found cs =
         check_certificates_hostname_loop D san' cert' h i ret found cs"
proof (cases "check_certificates_hostname_loop D san cert h i ret found cs")
  case None
  show ?thesis
  proof (cases "check_certificates_hostname_loop D san' cert' h i ret found cs")
    case inner: None
    with None show ?thesis by simp
  next
    case (Some y)
    then have "check_certificates_hostname_loop D san cert h i ret found cs = Some y"
      using assms [symmetric] by (rule loop1_same_answers_imp)
    with None show ?thesis by simp
  qed
next
  case (Some y)
  then have "check_certificates_hostname_loop D san' cert' h i ret found cs = Some y"
    using assms by (rule loop1_same_answers_imp)
  with Some show ?thesis by simp
qed

subsection \<open>The two entry points\<close>

lemma check2_as_check1:
  "gnutls_x509_certificate_check_hostname D OID san getdn cert h =
   gnutls_x509_check_certificates_hostname D san
     (\<lambda>c. (fst (getdn c OID 0), \<lparr>common_name = snd (getdn c OID 0)\<rparr>)) cert h"
  by (auto simp: gnutls_x509_certificate_check_hostname_def
      gnutls_x509_check_certificates_hostname_def loop2_eq_loop1 Let_def
      split: option.splits prod.splits)

lemma scan_match:
  assumes "\<forall>j<m. \<not> san_code san cert j < 0 \<and> \<not> san_match D san cert h j"
    and "san_match D san cert h m"
  shows "check_certificates_hostname_loop D san cert h 0 0 0 [] =
           Some \<lparr>returned = Some 1, found_dnsname = 1, calls = san_requests 0 (Suc m)\<rparr>"
  using loop1_match [of 0 0 m san cert D h 0 "[]"] assms by simp

lemma scan_exhaust:
  assumes "san_ends_at san cert k" and "\<forall>j\<le>k. \<not> san_match D san cert h j"
  shows "check_certificates_hostname_loop D san cert h 0 0 0 [] =
           Some \<lparr>returned = None,
                 found_dnsname = (if \<exists>j\<le>k. san_code san cert j = D then 1 else 0),
                 calls = san_requests 0 (Suc k)\<rparr>"
  using loop1_exhaust [of 0 0 k san cert D h 0 "[]"] assms by (simp add: san_ends_at_def)

lemma check1_match:
  assumes "\<forall>j<m. \<not> san_code san cert j < 0 \<and> \<not> san_match D san cert h j"
    and "san_match D san cert h m"
  shows "gnutls_x509_check_certificates_hostname D san dn cert h =
           Some (1, san_requests 0 (Suc m))"
  by (simp add: gnutls_x509_check_certificates_hostname_def scan_match [OF assms])

lemma check1_unmatched_dns:
  assumes "san_ends_at san cert k" and "\<forall>j\<le>k. \<not> san_match D san cert h j"
    and "\<exists>j\<le>k. san_code san cert j = D"
  shows "gnutls_x509_check_certificates_hostname D san dn cert h =
           Some (0, san_requests 0 (Suc k))"
  using assms(3)
  by (simp add: gnutls_x509_check_certificates_hostname_def scan_exhaust [OF assms(1,2)])

lemma check1_fallback:
  assumes "san_ends_at san cert k" and "\<forall>j\<le>k. san_code san cert j \<noteq> D"
  shows "gnutls_x509_check_certificates_hostname D san dn cert h =
           Some (common_name_verdict (fst (dn cert)) (common_name (snd (dn cert))) h,
                 san_requests 0 (Suc k) @ [Subject_dn])"
proof -
  have nomatch: "\<forall>j\<le>k. \<not> san_match D san cert h j"
    using assms(2) by (simp add: san_match_def san_code_def)
  have nodns: "\<not> (\<exists>j\<le>k. san_code san cert j = D)"
    using assms(2) by simp
  show ?thesis
    unfolding gnutls_x509_check_certificates_hostname_def scan_exhaust [OF assms(1) nomatch]
      if_not_P [OF nodns]
    by (simp add: common_name_verdict_def Let_def split: prod.splits)
qed

lemma first_index:
  fixes j :: nat
  assumes "P j" and "j \<le> k"
  obtains m where "m \<le> k" and "P m" and "\<forall>i<m. \<not> P i"
proof
  let ?m = "LEAST i. P i"
  show "?m \<le> k" using Least_le [of P j] assms by simp
  show "P ?m" using assms(1) by (rule LeastI)
  show "\<forall>i<?m. \<not> P i" using not_less_Least by blast
qed

lemma check1_cases:
  assumes "san_ends_at san cert k"
  obtains
    (match) m where "m \<le> k" and "san_match D san cert h m"
      and "gnutls_x509_check_certificates_hostname D san dn cert h =
             Some (1, san_requests 0 (Suc m))"
  | (unmatched) "\<forall>j\<le>k. \<not> san_match D san cert h j" and "\<exists>j\<le>k. san_code san cert j = D"
      and "gnutls_x509_check_certificates_hostname D san dn cert h =
             Some (0, san_requests 0 (Suc k))"
  | (fallback) "\<forall>j\<le>k. san_code san cert j \<noteq> D"
      and "gnutls_x509_check_certificates_hostname D san dn cert h =
             Some (common_name_verdict (fst (dn cert)) (common_name (snd (dn cert))) h,
                   san_requests 0 (Suc k) @ [Subject_dn])"
proof (cases "\<exists>j\<le>k. san_match D san cert h j")
  case True
  then obtain j where "san_match D san cert h j" "j \<le> k" by blast
  then obtain m where m: "m \<le> k" "san_match D san cert h m"
    "\<forall>i<m. \<not> san_match D san cert h i"
    by (rule first_index)
  have "\<forall>j<m. \<not> san_code san cert j < 0"
    using assms m(1) by (simp add: san_ends_at_def)
  with m(3) have "\<forall>j<m. \<not> san_code san cert j < 0 \<and> \<not> san_match D san cert h j"
    by simp
  then have "gnutls_x509_check_certificates_hostname D san dn cert h =
      Some (1, san_requests 0 (Suc m))"
    using m(2) by (rule check1_match)
  with m(1,2) show ?thesis by (rule match)
next
  case False
  then have nomatch: "\<forall>j\<le>k. \<not> san_match D san cert h j" by simp
  show ?thesis
  proof (cases "\<exists>j\<le>k. san_code san cert j = D")
    case True
    with nomatch show ?thesis
      using check1_unmatched_dns [OF assms nomatch True] by (rule unmatched)
  next
    case False
    then have nodns: "\<forall>j\<le>k. san_code san cert j \<noteq> D" by simp
    then show ?thesis
      using check1_fallback [OF assms nodns] by (rule fallback)
  qed
qed



section \<open>Claims about \<open>hostname_compare\<close>\<close>

text \<open>
  C3. \<open>hostname_compare\<close> computes the reference definition of WildcardCompare: it is
  nonzero exactly when the reference definition is true, and the value it returns is
  then 1, otherwise 0.
\<close>

theorem C3_hostname_compare_refines_spec:
  "(hostname_compare certname hostname \<noteq> 0) = WildcardCompare_spec certname hostname
   \<and> hostname_compare certname hostname =
       (if WildcardCompare_spec certname hostname then 1 else 0)"
  by (simp add: hostname_compare_spec)

text \<open>
  C7. Comparing a non-empty string with itself succeeds, also when the string starts
  with the wildcard prefix \<open>*.\<close>.
\<close>

theorem C7_hostname_compare_reflexive:
  "h \<noteq> [] \<Longrightarrow> hostname_compare h h = 1"
  by (simp add: hostname_compare_spec WildcardCompare_spec_refl)

theorem C7_hostname_compare_reflexive_witness:
  "''*.example.com'' \<noteq> [] \<and> hostname_compare ''*.example.com'' ''*.example.com'' = 1"
  using C7_hostname_compare_reflexive [of "''*.example.com''"] by simp

section \<open>Claims about the traversal\<close>

text \<open>
  In the statements below \<open>D\<close> is the value of \<open>GNUTLS_SAN_DNSNAME\<close>, \<open>san\<close> the
  subjectAltName accessor, \<open>dn\<close> the accessor \<open>gnutls_x509_extract_certificate_dn\<close>,
  \<open>getdn\<close> the accessor \<open>gnutls_x509_certificate_get_dn_by_oid\<close> and \<open>h\<close> the
  hostname. Every statement is made for both entry points.
\<close>

text \<open>
  C1. The claim asks that an index at which extraction fails be skipped like an entry
  of another type, so that the DNS entries after it still decide; the comments of
  lines 62 to 67 promise the same (all subjectAltName entries are checked, and the
  Common Name is tried only if there is no entry of type dNSName). The code does not
  do it. \<open>san_error_first\<close> reports a negative code for entry 0 and the DNS name
  \<open>www.example.com\<close> for entry 1: both entry points stop at index 0, never request
  index 1, turn to the Common Name (whose retrieval fails here) and return 0 for the
  hostname \<open>www.example.com\<close>, which entry 1 matches.
\<close>

theorem C1_decode_error_aborts_traversal:
  "gnutls_x509_check_certificates_hostname 1 san_error_first dn_unavailable ()
     ''www.example.com'' = Some (0, [Subject_alt_name 0, Subject_dn])
   \<and> gnutls_x509_certificate_check_hostname 1 () san_error_first dn_by_oid_unavailable ()
     ''www.example.com'' = Some (0, [Subject_alt_name 0, Subject_dn])
   \<and> san_error_first () 0 = (- 1, [])
   \<and> san_error_first () 1 = (1, ''www.example.com'')
   \<and> hostname_compare ''www.example.com'' ''www.example.com'' = 1"
proof (intro conjI)
  show "gnutls_x509_check_certificates_hostname 1 san_error_first dn_unavailable ()
     ''www.example.com'' = Some (0, [Subject_alt_name 0, Subject_dn])"
    by (simp add: gnutls_x509_check_certificates_hostname_def
        check_certificates_hostname_loop.simps san_error_first_def dn_unavailable_def)
  show "gnutls_x509_certificate_check_hostname 1 () san_error_first dn_by_oid_unavailable ()
     ''www.example.com'' = Some (0, [Subject_alt_name 0, Subject_dn])"
    by (simp add: gnutls_x509_certificate_check_hostname_def
        certificate_check_hostname_loop.simps san_error_first_def dn_by_oid_unavailable_def)
  show "san_error_first () 0 = (- 1, [])"
    by (simp add: san_error_first_def)
  show "san_error_first () 1 = (1, ''www.example.com'')"
    by (simp add: san_error_first_def)
  show "hostname_compare ''www.example.com'' ''www.example.com'' = 1"
    by (simp add: hostname_compare_def strlen_def)
qed

text \<open>
  C2. The claim asks that the Common Name be compared only when the certificate has no
  entry of DNS type at all, as the comment of lines 62 and 63 does. The code compares
  it whenever the traversal has seen none, and the traversal ends at the first negative
  code. On \<open>san_error_first\<close> with the Common Name \<open>host.example.org\<close>, both entry
  points stop at index 0, call the Common Name accessor and return 1 for the hostname
  \<open>host.example.org\<close>, although entry 1 is a DNS name, and one that does not match.
\<close>

theorem C2_common_name_consulted_despite_dns_entry:
  "gnutls_x509_check_certificates_hostname 1 san_error_first dn_example ()
     ''host.example.org'' = Some (1, [Subject_alt_name 0, Subject_dn])
   \<and> gnutls_x509_certificate_check_hostname 1 () san_error_first dn_by_oid_example ()
     ''host.example.org'' = Some (1, [Subject_alt_name 0, Subject_dn])
   \<and> san_error_first () 0 = (- 1, [])
   \<and> san_error_first () 1 = (1, ''www.example.com'')
   \<and> hostname_compare ''www.example.com'' ''host.example.org'' = 0"
proof (intro conjI)
  show "gnutls_x509_check_certificates_hostname 1 san_error_first dn_example ()
     ''host.example.org'' = Some (1, [Subject_alt_name 0, Subject_dn])"
    by (simp add: gnutls_x509_check_certificates_hostname_def
        check_certificates_hostname_loop.simps san_error_first_def dn_example_def
        hostname_compare_def strlen_def)
  show "gnutls_x509_certificate_check_hostname 1 () san_error_first dn_by_oid_example ()
     ''host.example.org'' = Some (1, [Subject_alt_name 0, Subject_dn])"
    by (simp add: gnutls_x509_certificate_check_hostname_def
        certificate_check_hostname_loop.simps san_error_first_def dn_by_oid_example_def
        hostname_compare_def strlen_def)
  show "san_error_first () 0 = (- 1, [])"
    by (simp add: san_error_first_def)
  show "san_error_first () 1 = (1, ''www.example.com'')"
    by (simp add: san_error_first_def)
  show "hostname_compare ''www.example.com'' ''host.example.org'' = 0"
    by (simp add: hostname_compare_def strlen_def)
qed

text \<open>
  C4. If the requests before \<open>m\<close> all return non-negative codes and none is a matching
  DNS entry, and request \<open>m\<close> is a DNS entry that \<open>hostname_compare\<close> accepts, then both
  entry points return 1 after exactly the requests 0 to \<open>m\<close>: no later index is
  requested and the Common Name accessor is not called. The loop is left by
  \<open>return 1\<close> with \<open>found_dnsname\<close> set to 1.
\<close>

theorem C4_first_match_returns_at_once:
  assumes "\<forall>j<m. \<not> san_code san cert j < 0 \<and> \<not> san_match D san cert h j"
    and "san_match D san cert h m"
  shows "gnutls_x509_check_certificates_hostname D san dn cert h =
           Some (1, san_requests 0 (Suc m))
         \<and> gnutls_x509_certificate_check_hostname D OID san getdn cert h =
           Some (1, san_requests 0 (Suc m))
         \<and> check_certificates_hostname_loop D san cert h 0 0 0 [] =
           Some \<lparr>returned = Some 1, found_dnsname = 1, calls = san_requests 0 (Suc m)\<rparr>
         \<and> certificate_check_hostname_loop D san cert h 0 0 0 [] =
           Some \<lparr>returned = Some 1, found_dnsname = 1, calls = san_requests 0 (Suc m)\<rparr>"
  unfolding check2_as_check1 loop2_eq_loop1
  using check1_match [OF assms] scan_match [OF assms] by simp

text \<open>
  Witness for C4: for \<open>www.example.com\<close> the first match of \<open>san_example\<close> is the
  wildcard name at index 2.
\<close>

theorem C4_first_match_returns_at_once_witness:
  "gnutls_x509_check_certificates_hostname 1 san_example dn_example () ''www.example.com'' =
     Some (1, [Subject_alt_name 0, Subject_alt_name 1, Subject_alt_name 2])"
proof -
  have before: "\<forall>j<Suc (Suc 0). \<not> san_code san_example () j < 0
      \<and> \<not> san_match 1 san_example () ''www.example.com'' j"
    by (simp add: All_less_Suc san_code_def san_match_def san_example_def
        hostname_compare_spec WildcardCompare_spec_def)
  have m: "san_match 1 san_example () ''www.example.com'' (Suc (Suc 0))"
    by (simp add: san_match_def san_example_def hostname_compare_spec
        WildcardCompare_spec_def)
  from C4_first_match_returns_at_once
    [OF before m, of dn_example "()" dn_by_oid_unavailable]
  show ?thesis by (simp add: san_requests_def upt_rec)
qed




text \<open>
  C6. Take an encoded certificate and a parsed one whose accessors agree: the
  subjectAltName accessors give the same answer at every index, the two ways of
  retrieving the Common Name both fail or both succeed, and when they succeed they give
  the same name. Then the two entry points give the same result for every hostname,
  after the same accessor calls; in particular they return the same verdict, and one
  returns exactly when the other does.
\<close>

theorem C6_entry_points_agree:
  assumes "\<forall>i. san1 cert1 i = san2 cert2 i"
    and "fst (dn cert1) \<noteq> 0 \<longleftrightarrow> fst (getdn cert2 OID 0) \<noteq> 0"
    and "fst (dn cert1) = 0 \<longrightarrow> common_name (snd (dn cert1)) = snd (getdn cert2 OID 0)"
  shows "gnutls_x509_check_certificates_hostname D san1 dn cert1 h =
         gnutls_x509_certificate_check_hostname D OID san2 getdn cert2 h"
proof -
  have same: "san1 cert1 = san2 cert2"
    using assms(1) by (intro ext) simp
  show ?thesis
    unfolding gnutls_x509_check_certificates_hostname_def
      gnutls_x509_certificate_check_hostname_def loop2_eq_loop1
      loop1_same_answers [where san = san1 and cert = cert1 and san' = san2 and cert' = cert2, OF same]
    using assms(2,3)
    by (auto simp: Let_def split: option.splits prod.splits)
qed

text \<open>
  Witness for C6: the encoded example certificate and the parsed certificate of
  handle 7 have the same entries and the same Common Name.
\<close>

theorem C6_entry_points_agree_witness:
  "gnutls_x509_check_certificates_hostname 1 san_example dn_example () ''www.example.com'' =
   gnutls_x509_certificate_check_hostname 1 () san_of_handle dn_by_oid_of_handle 7
     ''www.example.com''"
proof -
  have san: "\<forall>i. san_example () i = san_of_handle 7 i"
    by (simp add: san_of_handle_def)
  have fails: "fst (dn_example ()) \<noteq> 0 \<longleftrightarrow> fst (dn_by_oid_of_handle 7 () 0) \<noteq> 0"
    by (simp add: dn_example_def dn_by_oid_of_handle_def)
  have name: "fst (dn_example ()) = 0 \<longrightarrow>
      common_name (snd (dn_example ())) = snd (dn_by_oid_of_handle 7 () 0)"
    by (simp add: dn_example_def dn_by_oid_of_handle_def)
  show ?thesis
    using san fails name by (rule C6_entry_points_agree)
qed

text \<open>
  C8. If \<open>k\<close> is the first request whose return code is negative, both entry points
  return, and the run has made at most \<open>k + 1\<close> requests to the subjectAltName accessor.
\<close>

theorem C8_returns_after_bounded_requests:
  assumes "san_ends_at san cert k"
  shows "(\<exists>v t. gnutls_x509_check_certificates_hostname D san dn cert h = Some (v, t)
                \<and> length (filter (\<lambda>c. c \<noteq> Subject_dn) t) \<le> Suc k)
         \<and> (\<exists>v t. gnutls_x509_certificate_check_hostname D OID san getdn cert h = Some (v, t)
                \<and> length (filter (\<lambda>c. c \<noteq> Subject_dn) t) \<le> Suc k)"
proof -
  have bound: "\<exists>v t. gnutls_x509_check_certificates_hostname D san dn' cert h = Some (v, t)
      \<and> length (filter (\<lambda>c. c \<noteq> Subject_dn) t) \<le> Suc k" for dn'
  proof (rule check1_cases [OF assms, where D = D and h = h and dn = dn'])
    fix m
    assume "m \<le> k" and "gnutls_x509_check_certificates_hostname D san dn' cert h =
        Some (1, san_requests 0 (Suc m))"
    then show ?thesis
      by (simp add: filter_san_requests length_san_requests)
  next
    assume "gnutls_x509_check_certificates_hostname D san dn' cert h =
        Some (0, san_requests 0 (Suc k))"
    then show ?thesis
      by (simp add: filter_san_requests length_san_requests)
  next
    assume "gnutls_x509_check_certificates_hostname D san dn' cert h =
        Some (common_name_verdict (fst (dn' cert)) (common_name (snd (dn' cert))) h,
              san_requests 0 (Suc k) @ [Subject_dn])"
    then show ?thesis
      by (simp add: filter_san_requests length_san_requests)
  qed
  show ?thesis
    unfolding check2_as_check1 using bound by blast
qed

text \<open>
  Witness for C8: on \<open>san_example\<close>, whose first negative code is at index 3, the
  function returns after at most four requests.
\<close>

theorem C8_returns_after_bounded_requests_witness:
  "\<exists>v t. gnutls_x509_check_certificates_hostname 1 san_example dn_example ()
            ''host.example.org'' = Some (v, t)
         \<and> length (filter (\<lambda>c. c \<noteq> Subject_dn) t) \<le> 4"
proof -
  have ends: "san_ends_at san_example () (Suc (Suc (Suc 0)))"
    by (simp add: san_ends_at_def san_code_def san_example_def All_less_Suc)
  have four: "(4::nat) = Suc (Suc (Suc (Suc 0)))"
    by simp
  from C8_returns_after_bounded_requests
    [OF ends, of 1 dn_example "''host.example.org''" "()" dn_by_oid_unavailable]
  show ?thesis unfolding four by (rule conjunct1)
qed

section \<open>Claim about the cipher wrappers\<close>

text \<open>
  C10. When the handle is \<open>GNUTLS_CIPHER_FAILED\<close>, \<open>gnutls_cipher_encrypt\<close> and
  \<open>gnutls_cipher_decrypt\<close> return 0 and leave the buffer as it was, whatever the
  buffer, the length and the build configuration.
\<close>

theorem C10_failed_handle_reports_success:
  "gnutls_cipher_encrypt USE_MCRYPT GNUTLS_CIPHER_FAILED GNUTLS_E_UNKNOWN_ERROR
     mcrypt_generic gcry_cipher_encrypt GNUTLS_CIPHER_FAILED text textlen = (0, text)
   \<and> gnutls_cipher_decrypt USE_MCRYPT GNUTLS_CIPHER_FAILED GNUTLS_E_UNKNOWN_ERROR
     mdecrypt_generic gcry_cipher_decrypt GNUTLS_CIPHER_FAILED text textlen = (0, text)"
  by (simp add: gnutls_cipher_encrypt_def gnutls_cipher_decrypt_def)


end
